theory Spec2Isabelle
  imports Main "HOL-Library.Word"
begin

section \<open>The session store of \<^verbatim>\<open>local_db.py\<close>\<close>

text \<open>
  The module keeps one global, \<^verbatim>\<open>DB_CONN\<close>, and talks to one table,
  \<^verbatim>\<open>
  CREATE TABLE sessions (
    id SERIAL PRIMARY KEY,
    token CHAR(64),
    login CHAR(64),
    role_id INTEGER,
    expires TIMESTAMP(0)
  );
  \<close>
  Each Python function is one or two SQL statements on that table. The model passes
  the global explicitly, \<open>None\<close> for \<^verbatim>\<open>DB_CONN = None\<close> and \<open>Some db\<close> for an open
  connection to the database \<open>db\<close>, and evaluates every statement on a list of rows in
  storage order: an \<^verbatim>\<open>INSERT\<close> puts its row where the backend finds room, a
  \<^verbatim>\<open>DELETE\<close> keeps the order of the rows it leaves, and \<^verbatim>\<open>LIMIT 1\<close> takes the first
  row that matches. What the column types do to a value is part of the statements and is
  written out below: \<^verbatim>\<open>CHAR(64)\<close> pads, rejects over-long values and compares without
  trailing spaces, \<^verbatim>\<open>INTEGER\<close> holds 32 bits, \<^verbatim>\<open>TIMESTAMP(0)\<close> rounds to whole seconds,
  \<^verbatim>\<open>SERIAL\<close> draws the \<^verbatim>\<open>id\<close> from a sequence.

  Three inputs come from outside the program and are parameters of the model: the
  clock, the random source, and the place the backend gives a new row among the stored
  ones. A timestamp is a number of microseconds, the resolution of both
  \<^verbatim>\<open>datetime.datetime.now()\<close> and \<^verbatim>\<open>current_timestamp\<close>, counted from the backend's
  epoch on one common local time line. A string is a list of characters, each standing
  for one code point below 256. Arguments have the types of the interface: strings for
  \<^verbatim>\<open>token\<close> and \<^verbatim>\<open>login\<close>, an unbounded Python integer for \<^verbatim>\<open>role_id\<close>.
\<close>

subsection \<open>Errors\<close>

text \<open>
  \<open>AssertionError\<close>: \<^verbatim>\<open>assert DB_CONN\<close> fails. \<open>IndexError\<close>: \<^verbatim>\<open>res[0]\<close> on an empty
  result. \<open>EncodingError\<close>: the backend refuses a string parameter that holds the
  character U+0000. \<open>QueryFailure\<close>: the driver or the backend rejects a statement
  for a value that does not fit its column, or for an exhausted sequence.
\<close>

datatype error = AssertionError | IndexError | EncodingError | QueryFailure

subsection \<open>Column types\<close>

type_synonym timestamp = int

text \<open>\<^verbatim>\<open>TTL = datetime.timedelta(hours=12)\<close>, in microseconds.\<close>

definition TTL :: int where
  "TTL = 12 * 3600 * 1000000"

text \<open>
  Storing a timestamp in a \<^verbatim>\<open>TIMESTAMP(0)\<close> column rounds it to the nearest whole
  second, halves away from zero.
\<close>

definition timestamp0 :: "timestamp \<Rightarrow> timestamp" where
  "timestamp0 t =
     (if 0 \<le> t then ((t + 500000) div 1000000) * 1000000
      else - (((- t + 500000) div 1000000) * 1000000))"

text \<open>
  A string parameter reaches a statement only if it holds no character U+0000; the
  backend's text types have no such character.
\<close>

definition encodable :: "string \<Rightarrow> bool" where
  "encodable s = (CHR 0x00 \<notin> set s)"

text \<open>A \<^verbatim>\<open>CHAR\<close> value without its trailing spaces.\<close>

definition rstrip_spaces :: "string \<Rightarrow> string" where
  "rstrip_spaces s = rev (dropWhile (\<lambda>c. c = CHR '' '') (rev s))"

text \<open>
  \<^verbatim>\<open>token = $1\<close> on a \<^verbatim>\<open>CHAR(64)\<close> column: the parameter takes the column's type, and
  two \<^verbatim>\<open>CHAR\<close> values are equal when they agree up to trailing spaces.
\<close>

definition bpchar_eq :: "string \<Rightarrow> string \<Rightarrow> bool" where
  "bpchar_eq a b = (rstrip_spaces a = rstrip_spaces b)"

text \<open>
  Assigning a string to a \<^verbatim>\<open>CHAR(n)\<close> column: a shorter value is padded with spaces,
  a longer one is cut if only spaces are cut off and rejected otherwise.
\<close>

definition bpchar :: "nat \<Rightarrow> string \<Rightarrow> string option" where
  "bpchar n s =
     (if length s \<le> n then Some (s @ replicate (n - length s) CHR '' '')
      else if list_all (\<lambda>c. c = CHR '' '') (drop n s) then Some (take n s)
      else None)"

text \<open>An \<^verbatim>\<open>INTEGER\<close> parameter is a signed 32-bit number.\<close>

definition int4 :: "int \<Rightarrow> int option" where
  "int4 i = (if - 2147483648 \<le> i \<and> i \<le> 2147483647 then Some i else None)"

subsection \<open>The table and the connection\<close>

record session =
  id_serial :: int
  token :: string
  login :: string
  role_id :: int
  expires :: timestamp

text \<open>
  The database: the rows of \<^verbatim>\<open>sessions\<close> in storage order and the last value drawn
  from the sequence behind \<^verbatim>\<open>id\<close>.
\<close>

record database =
  sessions :: "session list"
  sessions_id_seq :: int

type_synonym conn = "database option"

text \<open>
  Every value stored in a \<^verbatim>\<open>CHAR(64)\<close> column, and handed back from it, is 64
  characters long and holds no character U+0000.
\<close>

definition sessions_typed :: "database \<Rightarrow> bool" where
  "sessions_typed db =
     (\<forall>r \<in> set (sessions db).
        length (token r) = 64 \<and> length (login r) = 64
        \<and> encodable (token r) \<and> encodable (login r))"

text \<open>The database right after \<^verbatim>\<open>configure_db\<close> has created the table.\<close>

definition created_db :: database where
  "created_db = \<lparr>sessions = [], sessions_id_seq = 0\<rparr>"

text \<open>
  \<^verbatim>\<open>nextval\<close> of the sequence of a \<^verbatim>\<open>SERIAL\<close> column, which ends at the largest
  32-bit integer.
\<close>

definition nextval :: "database \<Rightarrow> int option" where
  "nextval db = int4 (sessions_id_seq db + 1)"

text \<open>\<^verbatim>\<open>res[0][0]\<close> on the rows of a one-column result.\<close>

definition first_cell :: "'a list \<Rightarrow> error + 'a" where
  "first_cell res = (case res of [] \<Rightarrow> Inl IndexError | x # _ \<Rightarrow> Inr x)"

subsection \<open>Token generation\<close>

text \<open>
  \<^verbatim>\<open>secrets.token_hex(32)\<close> reads 32 bytes from the system's random source and writes
  each as two lower-case hexadecimal digits. The random source is the parameter
  \<open>urandom\<close>: \<open>urandom i\<close> is the \<open>i\<close>-th byte it yields on this call.
\<close>

definition hexdigit :: "nat \<Rightarrow> char" where
  "hexdigit n = ''0123456789abcdef'' ! n"

definition hexlify :: "8 word list \<Rightarrow> string" where
  "hexlify bs = concat (map (\<lambda>b. [hexdigit (unat b div 16), hexdigit (unat b mod 16)]) bs)"

definition token_bytes :: "nat \<Rightarrow> (nat \<Rightarrow> 8 word) \<Rightarrow> 8 word list" where
  "token_bytes nbytes urandom = map urandom [0..<nbytes]"

definition token_hex :: "nat \<Rightarrow> (nat \<Rightarrow> 8 word) \<Rightarrow> string" where
  "token_hex nbytes urandom = hexlify (token_bytes nbytes urandom)"

definition generate_token :: "(nat \<Rightarrow> 8 word) \<Rightarrow> string" where
  "generate_token urandom = token_hex 32 urandom"

subsection \<open>The operations\<close>

text \<open>
  \<^verbatim>\<open>store_user_auth(login, role_id)\<close>: one \<^verbatim>\<open>INSERT\<close> of
  \<^verbatim>\<open>(token, login, role_id, datetime.datetime.now() + TTL)\<close>. The driver packs
  \<^verbatim>\<open>role_id\<close> as an \<^verbatim>\<open>INTEGER\<close>; the backend takes the strings, draws the \<^verbatim>\<open>id\<close>
  and brings each value to its column's type. The new row goes where the backend finds
  room for it, before the stored row number \<open>slot\<close> (behind all of them when there
  are no more): room left by deleted rows is used again.
\<close>

definition store_user_auth ::
  "(nat \<Rightarrow> 8 word) \<Rightarrow> timestamp \<Rightarrow> nat \<Rightarrow> string \<Rightarrow> int \<Rightarrow> conn
     \<Rightarrow> error + (string \<times> conn)" where
  "store_user_auth urandom now slot login_arg role_id_arg DB_CONN =
     (case DB_CONN of
        None \<Rightarrow> Inl AssertionError
      | Some db \<Rightarrow>
          let tok = generate_token urandom;
              expires_arg = now + TTL
          in (case int4 role_id_arg of
                None \<Rightarrow> Inl QueryFailure
              | Some r \<Rightarrow>
                  if \<not> (encodable tok \<and> encodable login_arg) then Inl EncodingError
                  else
                    (case (nextval db, bpchar 64 tok, bpchar 64 login_arg) of
                       (Some i, Some t, Some l) \<Rightarrow>
                         Inr (tok,
                              Some (db\<lparr>sessions :=
                                          take slot (sessions db) @
                                          \<lparr>id_serial = i, token = t, login = l, role_id = r,
                                            expires = timestamp0 expires_arg\<rparr> #
                                          drop slot (sessions db),
                                        sessions_id_seq := i\<rparr>))
                     | _ \<Rightarrow> Inl QueryFailure)))"

text \<open>
  \<^verbatim>\<open>is_valid_token(token)\<close>: the \<^verbatim>\<open>SELECT exists (... LIMIT 1)\<close>, then the
  \<^verbatim>\<open>DELETE\<close> of the expired rows, then \<^verbatim>\<open>res[0][0]\<close>. The two statements read
  \<^verbatim>\<open>current_timestamp\<close> one after the other: \<open>now_select\<close>, then \<open>now_delete\<close>. When
  the backend refuses the token, the \<^verbatim>\<open>SELECT\<close> raises and the \<^verbatim>\<open>DELETE\<close> is not
  reached.
\<close>

definition is_valid_token ::
  "string \<Rightarrow> timestamp \<Rightarrow> timestamp \<Rightarrow> conn \<Rightarrow> error + (bool \<times> conn)" where
  "is_valid_token tok now_select now_delete DB_CONN =
     (case DB_CONN of
        None \<Rightarrow> Inl AssertionError
      | Some db \<Rightarrow>
          if \<not> encodable tok then Inl EncodingError
          else
            let res = [take 1 (filter (\<lambda>r. bpchar_eq (token r) tok \<and> now_select < expires r)
                                 (sessions db)) \<noteq> []];
                db' = db\<lparr>sessions := filter (\<lambda>r. \<not> expires r \<le> now_delete) (sessions db)\<rparr>
            in (case first_cell res of
                  Inl e \<Rightarrow> Inl e
                | Inr b \<Rightarrow> Inr (b, Some db')))"

text \<open>
  Python's \<^verbatim>\<open>str.strip()\<close>: drops the white space at both ends, where white space is
  what \<^verbatim>\<open>str.isspace\<close> accepts.
\<close>

definition isspace :: "char \<Rightarrow> bool" where
  "isspace c =
     (let n = (of_char c :: nat)
      in (9 \<le> n \<and> n \<le> 13) \<or> (28 \<le> n \<and> n \<le> 32) \<or> n = 133 \<or> n = 160)"

definition strip :: "string \<Rightarrow> string" where
  "strip s = rev (dropWhile isspace (rev (dropWhile isspace s)))"

text \<open>
  \<^verbatim>\<open>get_login_by_token(token)\<close>: \<^verbatim>\<open>SELECT login ... WHERE token = $1 LIMIT 1\<close>, then
  \<^verbatim>\<open>res[0][0].strip()\<close>.
\<close>

definition get_login_by_token :: "string \<Rightarrow> conn \<Rightarrow> error + (string \<times> conn)" where
  "get_login_by_token tok DB_CONN =
     (case DB_CONN of
        None \<Rightarrow> Inl AssertionError
      | Some db \<Rightarrow>
          if \<not> encodable tok then Inl EncodingError
          else
            let res = take 1 (map login (filter (\<lambda>r. bpchar_eq (token r) tok) (sessions db)))
            in (case first_cell res of
                  Inl e \<Rightarrow> Inl e
                | Inr l \<Rightarrow> Inr (strip l, DB_CONN)))"

text \<open>
  \<^verbatim>\<open>get_role_id_by_token(token)\<close>: \<^verbatim>\<open>SELECT role_id ... WHERE token = $1 LIMIT 1\<close>,
  then \<^verbatim>\<open>res[0][0]\<close>.
\<close>

definition get_role_id_by_token :: "string \<Rightarrow> conn \<Rightarrow> error + (int \<times> conn)" where
  "get_role_id_by_token tok DB_CONN =
     (case DB_CONN of
        None \<Rightarrow> Inl AssertionError
      | Some db \<Rightarrow>
          if \<not> encodable tok then Inl EncodingError
          else
            let res = take 1 (map role_id (filter (\<lambda>r. bpchar_eq (token r) tok) (sessions db)))
            in (case first_cell res of
                  Inl e \<Rightarrow> Inl e
                | Inr i \<Rightarrow> Inr (i, DB_CONN)))"

text \<open>\<^verbatim>\<open>remove_token(token)\<close>: \<^verbatim>\<open>DELETE FROM sessions WHERE token = $1\<close>.\<close>

definition remove_token :: "string \<Rightarrow> conn \<Rightarrow> error + (unit \<times> conn)" where
  "remove_token tok DB_CONN =
     (case DB_CONN of
        None \<Rightarrow> Inl AssertionError
      | Some db \<Rightarrow>
          if \<not> encodable tok then Inl EncodingError
          else Inr ((), Some (db\<lparr>sessions := filter (\<lambda>r. \<not> bpchar_eq (token r) tok)
                                                 (sessions db)\<rparr>)))"

subsection \<open>Callers\<close>

text \<open>What a call returns, and the state it leaves, each without the other.\<close>

definition returned :: "error + ('a \<times> conn) \<Rightarrow> error + 'a" where
  "returned res = (case res of Inl e \<Rightarrow> Inl e | Inr (v, _) \<Rightarrow> Inr v)"

text \<open>
  A caller is a sequence of calls of the module's functions, each on the state the
  previous one left; an exception ends it.
\<close>

datatype call =
    Store_user_auth "nat \<Rightarrow> 8 word" timestamp nat string int
  | Is_valid_token string timestamp timestamp
  | Get_login_by_token string
  | Get_role_id_by_token string
  | Remove_token string

definition after_call :: "error + ('a \<times> conn) \<Rightarrow> error + conn" where
  "after_call res = (case res of Inl e \<Rightarrow> Inl e | Inr (_, DB_CONN) \<Rightarrow> Inr DB_CONN)"

fun run_call :: "call \<Rightarrow> conn \<Rightarrow> error + conn" where
  "run_call (Store_user_auth urandom now slot l r) DB_CONN =
     after_call (store_user_auth urandom now slot l r DB_CONN)"
| "run_call (Is_valid_token t now_select now_delete) DB_CONN =
     after_call (is_valid_token t now_select now_delete DB_CONN)"
| "run_call (Get_login_by_token t) DB_CONN = after_call (get_login_by_token t DB_CONN)"
| "run_call (Get_role_id_by_token t) DB_CONN = after_call (get_role_id_by_token t DB_CONN)"
| "run_call (Remove_token t) DB_CONN = after_call (remove_token t DB_CONN)"

fun run_calls :: "call list \<Rightarrow> conn \<Rightarrow> error + conn" where
  "run_calls [] DB_CONN = Inr DB_CONN"
| "run_calls (c # cs) DB_CONN =
     (case run_call c DB_CONN of
        Inl e \<Rightarrow> Inl e
      | Inr DB_CONN' \<Rightarrow> run_calls cs DB_CONN')"

text \<open>The call revokes the token \<open>tok\<close>.\<close>

fun revokes :: "string \<Rightarrow> call \<Rightarrow> bool" where
  "revokes tok (Remove_token t) = bpchar_eq tok t"
| "revokes tok _ = False"

text \<open>The call issues a session whose generated token is \<open>tok\<close> again.\<close>

fun reissues :: "string \<Rightarrow> call \<Rightarrow> bool" where
  "reissues tok (Store_user_auth urandom now slot l r) = (generate_token urandom = tok)"
| "reissues tok _ = False"

text \<open>Every clock reading of the call is at or before \<open>t\<close>.\<close>

fun not_after :: "timestamp \<Rightarrow> call \<Rightarrow> bool" where
  "not_after t (Store_user_auth urandom now slot l r) = (now \<le> t)"
| "not_after t (Is_valid_token tok now_select now_delete) = (now_select \<le> t \<and> now_delete \<le> t)"
| "not_after t _ = True"

subsection \<open>Sample data\<close>

text \<open>
  Two random sources, the tokens they give, and a table of three sessions: one of
  \<open>alice\<close> that expires after 100 seconds, and two under the same token of \<open>bob\<close>'s, the
  first expiring after 10 seconds and the second after 200.
\<close>

definition urandom_a :: "nat \<Rightarrow> 8 word" where
  "urandom_a i = 0xAA"

definition urandom_b :: "nat \<Rightarrow> 8 word" where
  "urandom_b i = 0xBB"

definition token_a :: string where
  "token_a = replicate 64 CHR ''a''"

definition token_b :: string where
  "token_b = replicate 64 CHR ''b''"

definition token_c :: string where
  "token_c = replicate 64 CHR ''c''"

text \<open>A string of 64 characters that starts with U+0000, and \<open>alice\<close>'s token with a space behind.\<close>

definition token_nul :: string where
  "token_nul = CHR 0x00 # replicate 63 CHR ''a''"


definition row_alice :: session where
  "row_alice = \<lparr>id_serial = 1, token = token_a,
                 login = ''alice'' @ replicate 59 CHR '' '', role_id = 2,
                 expires = 100000000\<rparr>"

definition row_bob_old :: session where
  "row_bob_old = \<lparr>id_serial = 2, token = token_b,
                   login = ''bob'' @ replicate 61 CHR '' '', role_id = 7,
                   expires = 10000000\<rparr>"

definition row_bob :: session where
  "row_bob = \<lparr>id_serial = 3, token = token_b,
               login = ''bob'' @ replicate 61 CHR '' '', role_id = 7,
               expires = 200000000\<rparr>"

definition sample_db :: database where
  "sample_db = \<lparr>sessions = [row_alice, row_bob_old, row_bob], sessions_id_seq = 3\<rparr>"

text \<open>
  The new table after one session of \<open>alice\<close>'s under \<open>token_a\<close> with the given
  \<open>expires\<close>; a table whose one session has a login that starts with a space; what a
  caller may do between issuing a token and checking it, and the table that leaves.
\<close>

definition alice_only :: "timestamp \<Rightarrow> database" where
  "alice_only e =
     \<lparr>sessions = [\<lparr>id_serial = 1, token = token_a,
                    login = ''alice'' @ replicate 59 CHR '' '', role_id = 2,
                    expires = e\<rparr>],
      sessions_id_seq = 1\<rparr>"

definition row_spaced :: session where
  "row_spaced = \<lparr>id_serial = 1, token = token_c,
                  login = '' bob'' @ replicate 60 CHR '' '', role_id = 7,
                  expires = 10000000\<rparr>"

definition spaced_db :: database where
  "spaced_db = \<lparr>sessions = [row_spaced], sessions_id_seq = 1\<rparr>"

definition after_calls :: database where
  "after_calls =
     \<lparr>sessions = [\<lparr>id_serial = 2, token = token_b,
                    login = ''bob'' @ replicate 61 CHR '' '', role_id = 7,
                    expires = 43201000000\<rparr>,
                  \<lparr>id_serial = 1, token = token_a,
                    login = ''alice'' @ replicate 59 CHR '' '', role_id = 2,
                    expires = 43201000000\<rparr>],
      sessions_id_seq = 2\<rparr>"



text \<open>\<^verbatim>\<open>get_login_by_token(store_user_auth(login, role_id))\<close>.\<close>

definition issue_then_login ::
  "(nat \<Rightarrow> 8 word) \<Rightarrow> timestamp \<Rightarrow> nat \<Rightarrow> string \<Rightarrow> int \<Rightarrow> conn \<Rightarrow> error + string" where
  "issue_then_login urandom now slot l r DB_CONN =
     (case store_user_auth urandom now slot l r DB_CONN of
        Inl e \<Rightarrow> Inl e
      | Inr (t, DB_CONN') \<Rightarrow> returned (get_login_by_token t DB_CONN'))"

definition calls_between :: "call list" where
  "calls_between =
     [Store_user_auth urandom_b 700000 0 ''bob'' 7,
      Is_valid_token token_b 800000 800001,
      Get_login_by_token token_a,
      Is_valid_token token_c 43200000000 43200000001,
      Remove_token token_c,
      Get_role_id_by_token token_b]"

section \<open>Properties\<close>

subsection \<open>Column types\<close>

text \<open>A \<^verbatim>\<open>CHAR\<close> value is its content followed by spaces only.\<close>

lemma rstrip_spaces_decomp: "s = rstrip_spaces s @ replicate (length s - length (rstrip_spaces s)) CHR '' ''"
proof -
  let ?P = "\<lambda>c. c = CHR '' ''"
  have tw: "takeWhile ?P (rev s) = replicate (length (takeWhile ?P (rev s))) CHR '' ''"
    by (rule replicate_length_same [symmetric]) (auto dest: set_takeWhileD)
  have "rev s = takeWhile ?P (rev s) @ dropWhile ?P (rev s)" by simp
  then have "s = rev (dropWhile ?P (rev s)) @ rev (takeWhile ?P (rev s))"
    by (metis rev_append rev_rev_ident)
  moreover have "length s - length (rstrip_spaces s) = length (takeWhile ?P (rev s))"
    using length_append [of "takeWhile ?P (rev s)" "dropWhile ?P (rev s)"]
    by (simp add: rstrip_spaces_def)
  ultimately show ?thesis
    using tw by (simp add: rstrip_spaces_def) (metis rev_replicate)
qed

text \<open>On values of one length, as two values of one column are, \<^verbatim>\<open>=\<close> is equality.\<close>

lemma bpchar_eq_same_length: "length a = length b \<Longrightarrow> bpchar_eq a b = (a = b)"
  unfolding bpchar_eq_def
  using rstrip_spaces_decomp [of a] rstrip_spaces_decomp [of b] by metis

lemma bpchar_eq_refl: "bpchar_eq a a"
  by (simp add: bpchar_eq_def)

lemma bpchar_eq_sym: "bpchar_eq a b = bpchar_eq b a"
  by (auto simp: bpchar_eq_def)

lemma bpchar_eq_trans: "bpchar_eq a b \<Longrightarrow> bpchar_eq b c \<Longrightarrow> bpchar_eq a c"
  by (simp add: bpchar_eq_def)

lemma length_bpchar: "bpchar n s = Some v \<Longrightarrow> length v = n"
  by (auto simp: bpchar_def split: if_splits)

lemma encodable_bpchar: "encodable s \<Longrightarrow> bpchar n s = Some v \<Longrightarrow> encodable v"
  by (auto simp: bpchar_def encodable_def split: if_splits dest: in_set_takeD)

text \<open>
  A generated token has 64 characters, all of them hexadecimal digits, and is stored as
  it is.
\<close>

lemma length_hexlify: "length (hexlify bs) = 2 * length bs"
  by (induction bs) (simp_all add: hexlify_def)

lemma length_generate_token: "length (generate_token u) = 64"
  by (simp add: generate_token_def token_hex_def token_bytes_def length_hexlify)

lemma bpchar_generate_token: "bpchar 64 (generate_token u) = Some (generate_token u)"
  by (simp add: bpchar_def length_generate_token)

lemma hexdigit_not_nul: "n < 16 \<Longrightarrow> hexdigit n \<noteq> CHR 0x00"
proof -
  assume "n < 16"
  then have "hexdigit n \<in> set ''0123456789abcdef''"
    unfolding hexdigit_def by (intro nth_mem) simp
  then show ?thesis by auto
qed

lemma encodable_hexlify: "encodable (hexlify bs)"
proof -
  have "unat b div 16 < 16" and "unat b mod 16 < 16" for b :: "8 word"
  proof -
    have "unat b < 256"
      using unsigned_less [of b, where ?'a = nat] by simp
    then show "unat b div 16 < 16" by simp
    show "unat b mod 16 < 16" by simp
  qed
  then have digits: "hexdigit (unat b div 16) \<noteq> CHR 0x00" "hexdigit (unat b mod 16) \<noteq> CHR 0x00"
    for b :: "8 word"
    by (simp_all add: hexdigit_not_nul)
  have "c \<noteq> CHR 0x00" if "c \<in> set (hexlify bs)" for c
  proof -
    from that obtain b :: "8 word"
      where "c = hexdigit (unat b div 16) \<or> c = hexdigit (unat b mod 16)"
      by (auto simp: hexlify_def)
    with digits [of b] show ?thesis by auto
  qed
  then show ?thesis
    by (auto simp: encodable_def)
qed

lemma encodable_generate_token: "encodable (generate_token u)"
  by (simp add: generate_token_def token_hex_def encodable_hexlify)



text \<open>Rounding to whole seconds moves a timestamp by half a second at most.\<close>

lemma timestamp0_near: "\<bar>timestamp0 x - x\<bar> \<le> 500000"
proof (cases "0 \<le> x")
  case True
  have "(x + 500000) div 1000000 * 1000000 = (x + 500000) - (x + 500000) mod 1000000"
    by (simp add: minus_mod_eq_div_mult)
  moreover have "0 \<le> (x + 500000) mod 1000000" "(x + 500000) mod 1000000 < 1000000"
    by simp_all
  ultimately show ?thesis using True by (simp add: timestamp0_def)
next
  case False
  have "(- x + 500000) div 1000000 * 1000000 = (- x + 500000) - (- x + 500000) mod 1000000"
    by (simp add: minus_mod_eq_div_mult)
  moreover have "0 \<le> (- x + 500000) mod 1000000" "(- x + 500000) mod 1000000 < 1000000"
    by simp_all
  ultimately show ?thesis using False by (simp add: timestamp0_def)
qed

lemma timestamp0_whole:
  assumes "x mod 1000000 = 0"
  shows "timestamp0 x = x"
proof -
  obtain k where k: "x = 1000000 * k"
    using assms by (metis mod_0_imp_dvd dvd_def)
  have a: "(1000000 * k + 500000) div 1000000 = k"
    by (simp add: div_mult_self4)
  have b: "(- (1000000 * k) + 500000) div 1000000 = - k"
    using div_mult_self4 [of 1000000 "- k" 500000] by simp
  show ?thesis
    using a b by (simp add: timestamp0_def k)
qed

lemma timestamp0_TTL: "now mod 1000000 = 0 \<Longrightarrow> timestamp0 (now + TTL) = now + TTL"
  by (rule timestamp0_whole) (simp add: TTL_def mod_add_eq [symmetric])

text \<open>\<^verbatim>\<open>str.strip()\<close> removes the padding of a \<^verbatim>\<open>CHAR\<close> value.\<close>

lemma strip_padding:
  assumes "\<forall>c \<in> set p. isspace c"
  shows "strip (s @ p) = strip s"
proof (cases "\<forall>c \<in> set s. isspace c")
  case True
  with assms have "dropWhile isspace (s @ p) = []" and "dropWhile isspace s = []"
    by (simp_all add: dropWhile_eq_Nil_conv)
  then show ?thesis by (simp only: strip_def)
next
  case False
  then have "dropWhile isspace (s @ p) = dropWhile isspace s @ p"
    by (auto simp: dropWhile_append1)
  moreover have "dropWhile isspace (rev p @ ys) = dropWhile isspace ys" for ys
    by (rule dropWhile_append2) (use assms in auto)
  ultimately show ?thesis by (simp add: strip_def)
qed

lemma isspace_space: "isspace CHR '' ''"
  by (simp add: isspace_def)

lemma strip_replicate: "strip (s @ replicate k CHR '' '') = strip s"
  by (rule strip_padding) (simp add: isspace_space)

lemma strip_rstrip_spaces: "strip (rstrip_spaces s) = strip s"
  using strip_replicate [of "rstrip_spaces s" "length s - length (rstrip_spaces s)"]
    rstrip_spaces_decomp [of s] by simp

text \<open>\<^verbatim>\<open>str.strip()\<close> leaves a string that has no white space at either end as it is.\<close>

lemma dropWhile_hd: "xs \<noteq> [] \<Longrightarrow> \<not> P (hd xs) \<Longrightarrow> dropWhile P xs = xs"
  by (cases xs) auto

lemma strip_id:
  assumes "s = [] \<or> (\<not> isspace (hd s) \<and> \<not> isspace (last s))"
  shows "strip s = s"
proof (cases "s = []")
  case True
  then show ?thesis by (simp add: strip_def)
next
  case False
  with assms have h: "\<not> isspace (hd s)" and t: "\<not> isspace (last s)" by auto
  from False h have 1: "dropWhile isspace s = s"
    by (rule dropWhile_hd)
  from False t have "\<not> isspace (hd (rev s))"
    by (simp add: hd_rev)
  with False have 2: "dropWhile isspace (rev s) = rev s"
    by (intro dropWhile_hd) simp_all
  show ?thesis
    by (simp only: strip_def 1 2 rev_rev_ident)
qed

subsection \<open>The operations on an open connection\<close>

lemma set_insert_at: "set (take k xs @ x # drop k xs) = insert x (set xs)"
proof -
  have "set (take k xs) \<union> set (drop k xs) = set xs"
    by (metis append_take_drop_id set_append)
  then show ?thesis by auto
qed

lemma store_user_auth_Some:
  assumes "length l \<le> 64" and "encodable l" and "int4 r = Some r" and "nextval db = Some i"
  shows "store_user_auth urandom now slot l r (Some db) =
     Inr (generate_token urandom,
          Some (db\<lparr>sessions := take slot (sessions db) @
                      \<lparr>id_serial = i, token = generate_token urandom,
                        login = l @ replicate (64 - length l) CHR '' '', role_id = r,
                        expires = timestamp0 (now + TTL)\<rparr> # drop slot (sessions db),
                    sessions_id_seq := i\<rparr>))"
  using assms
  by (simp add: store_user_auth_def Let_def bpchar_generate_token encodable_generate_token)
    (simp add: bpchar_def)

lemma store_user_auth_InrD:
  assumes "store_user_auth urandom now slot l r (Some db) = Inr (t, c')"
  shows "\<exists>row. c' = Some (db\<lparr>sessions := take slot (sessions db) @ row # drop slot (sessions db),
                              sessions_id_seq := id_serial row\<rparr>)
           \<and> t = generate_token urandom \<and> token row = generate_token urandom
           \<and> encodable l \<and> bpchar 64 l = Some (login row) \<and> role_id row = r
           \<and> expires row = timestamp0 (now + TTL)"
  using assms
  by (auto simp: store_user_auth_def Let_def bpchar_generate_token int4_def
      split: option.splits if_splits
      intro!: exI [of _ "\<lparr>id_serial = the (nextval db), token = generate_token urandom,
        login = the (bpchar 64 l), role_id = the (int4 r),
        expires = timestamp0 (now + TTL)\<rparr>"])

lemma store_user_auth_InrD_set:
  assumes "store_user_auth urandom now slot l r (Some db) = Inr (t, c')"
  shows "\<exists>row db'. c' = Some db' \<and> set (sessions db') = insert row (set (sessions db))
           \<and> t = generate_token urandom \<and> token row = generate_token urandom
           \<and> encodable l \<and> bpchar 64 l = Some (login row) \<and> role_id row = r
           \<and> expires row = timestamp0 (now + TTL)"
proof -
  from store_user_auth_InrD [OF assms] obtain row where
    c': "c' = Some (db\<lparr>sessions := take slot (sessions db) @ row # drop slot (sessions db),
                       sessions_id_seq := id_serial row\<rparr>)"
    and rest: "t = generate_token urandom" "token row = generate_token urandom"
      "encodable l" "bpchar 64 l = Some (login row)" "role_id row = r"
      "expires row = timestamp0 (now + TTL)"
    by blast
  let ?db' = "db\<lparr>sessions := take slot (sessions db) @ row # drop slot (sessions db),
                  sessions_id_seq := id_serial row\<rparr>"
  have "sessions ?db' = take slot (sessions db) @ row # drop slot (sessions db)"
    by simp
  then have "set (sessions ?db') = insert row (set (sessions db))"
    by (simp only: set_insert_at)
  with c' rest show ?thesis by blast
qed

lemma store_user_auth_rejects:
  assumes "(\<exists>c \<in> set (drop 64 l). c \<noteq> CHR '' '') \<or> \<not> encodable l
           \<or> r < - 2147483648 \<or> 2147483647 < r \<or> 2147483647 \<le> sessions_id_seq db"
  shows "\<exists>e. store_user_auth urandom now slot l r (Some db) = Inl e"
proof -
  consider "int4 r = None" | "\<not> encodable l" | "nextval db = None" | "bpchar 64 l = None"
  proof -
    have "bpchar 64 l = None" if "\<exists>c \<in> set (drop 64 l). c \<noteq> CHR '' ''"
    proof -
      from that have "drop 64 l \<noteq> []" by auto
      then have "\<not> length l \<le> 64" by simp
      with that show ?thesis
        by (simp add: bpchar_def list_all_iff)
    qed
    moreover have "int4 r = None" if "r < - 2147483648 \<or> 2147483647 < r"
      using that by (auto simp: int4_def)
    moreover have "nextval db = None" if "2147483647 \<le> sessions_id_seq db"
      using that by (simp add: nextval_def int4_def)
    ultimately show ?thesis
      using assms that by blast
  qed
  then show ?thesis
    by cases (auto simp: store_user_auth_def Let_def split: option.splits)
qed

lemma is_valid_token_Some:
  "encodable t \<Longrightarrow> is_valid_token t now_select now_delete (Some db) =
     Inr ((\<exists>r \<in> set (sessions db). bpchar_eq (token r) t \<and> now_select < expires r),
          Some (db\<lparr>sessions := filter (\<lambda>r. now_delete < expires r) (sessions db)\<rparr>))"
  by (simp add: is_valid_token_def first_cell_def filter_empty_conv not_le)

lemma is_valid_token_InrD:
  "is_valid_token t now_select now_delete (Some db) = Inr (b, c') \<Longrightarrow>
     encodable t \<and> c' = Some (db\<lparr>sessions := filter (\<lambda>r. now_delete < expires r) (sessions db)\<rparr>)"
  by (cases "encodable t") (auto simp: is_valid_token_Some, simp add: is_valid_token_def)

lemma remove_token_Some:
  "encodable t \<Longrightarrow> remove_token t (Some db) =
     Inr ((), Some (db\<lparr>sessions := filter (\<lambda>r. \<not> bpchar_eq (token r) t) (sessions db)\<rparr>))"
  by (simp add: remove_token_def)

lemma remove_token_InrD:
  "remove_token t (Some db) = Inr (u, c') \<Longrightarrow>
     encodable t \<and> c' = Some (db\<lparr>sessions := filter (\<lambda>r. \<not> bpchar_eq (token r) t) (sessions db)\<rparr>)"
  by (cases "encodable t") (auto simp: remove_token_Some, simp add: remove_token_def)

lemma not_encodable:
  assumes "\<not> encodable t"
  shows "is_valid_token t now_select now_delete (Some db) = Inl EncodingError"
    and "get_login_by_token t (Some db) = Inl EncodingError"
    and "get_role_id_by_token t (Some db) = Inl EncodingError"
    and "remove_token t (Some db) = Inl EncodingError"
  using assms
  by (simp_all add: is_valid_token_def get_login_by_token_def get_role_id_by_token_def
      remove_token_def)

text \<open>The row that \<^verbatim>\<open>LIMIT 1\<close> returns is the first match in storage order.\<close>

lemma lookups_first_match:
  assumes "encodable t" and "filter (\<lambda>r. bpchar_eq (token r) t) (sessions db) = r # rs"
  shows "get_login_by_token t (Some db) = Inr (strip (login r), Some db)"
    and "get_role_id_by_token t (Some db) = Inr (role_id r, Some db)"
  using assms
  by (simp_all add: get_login_by_token_def get_role_id_by_token_def first_cell_def)

lemma lookups_keep_conn:
  "get_login_by_token t c = Inr (v, c') \<Longrightarrow> c' = c"
  "get_role_id_by_token t c = Inr (w, c'') \<Longrightarrow> c'' = c"
  by (auto simp: get_login_by_token_def get_role_id_by_token_def Let_def
      split: option.splits sum.splits if_splits)

lemma lookups_by_token:
  assumes "encodable t" and "filter (\<lambda>r. bpchar_eq (token r) t) (sessions db) = r # rs"
  shows "get_login_by_token t (Some db) = Inr (strip (rstrip_spaces (login r)), Some db)
       \<and> get_role_id_by_token t (Some db) = Inr (role_id r, Some db)
       \<and> (rstrip_spaces (login r) = []
            \<or> \<not> isspace (hd (rstrip_spaces (login r)))
              \<and> \<not> isspace (last (rstrip_spaces (login r)))
          \<longrightarrow> get_login_by_token t (Some db) = Inr (rstrip_spaces (login r), Some db))"
  using lookups_first_match [OF assms] strip_id [of "rstrip_spaces (login r)"]
  by (auto simp: strip_rstrip_spaces)

text \<open>Without a connection every function fails its assertion.\<close>

lemma no_connection:
  "store_user_auth urandom now slot l r None = Inl AssertionError"
  "is_valid_token t now_select now_delete None = Inl AssertionError"
  "get_login_by_token t None = Inl AssertionError"
  "get_role_id_by_token t None = Inl AssertionError"
  "remove_token t None = Inl AssertionError"
  by (simp_all add: store_user_auth_def is_valid_token_def get_login_by_token_def
      get_role_id_by_token_def remove_token_def)

subsection \<open>Validity\<close>







subsection \<open>The token\<close>

text \<open>
  Claim C10. The token \<^verbatim>\<open>store_user_auth\<close> returns is what the random source gives
  and nothing else: two calls that draw the same random bytes return the same token,
  whatever their logins, role ids, clocks and tables are.
\<close>

theorem issue_token_independent:
  assumes "store_user_auth urandom now1 slot1 login1 role1 c1 = Inr (t1, c1')"
    and "store_user_auth urandom now2 slot2 login2 role2 c2 = Inr (t2, c2')"
  shows "t1 = t2 \<and> t1 = generate_token urandom"
  using assms
  by (auto simp: store_user_auth_def Let_def split: option.splits if_splits)

text \<open>The same random bytes for \<open>alice\<close> on the new table and for \<open>bob\<close> on the sample one.\<close>

theorem issue_token_independent_witness:
  "\<exists>t1 c1 t2 c2.
     store_user_auth urandom_a 5 0 ''alice'' 2 (Some created_db) = Inr (t1, c1)
     \<and> store_user_auth urandom_a 77 2 ''bob'' 7 (Some sample_db) = Inr (t2, c2)
     \<and> t1 = token_a \<and> t2 = token_a"
proof -
  have n1: "nextval created_db = Some 1" and n2: "nextval sample_db = Some 4"
    by code_simp+
  have i1: "int4 2 = Some 2" and i2: "int4 7 = Some 7"
    by code_simp+
  have e1: "encodable ''alice''" and e2: "encodable ''bob''"
    by code_simp+
  have g: "generate_token urandom_a = token_a"
    by code_simp
  obtain c1 where 1: "store_user_auth urandom_a 5 0 ''alice'' 2 (Some created_db) = Inr (token_a, c1)"
    using store_user_auth_Some [OF _ e1 i1 n1, of urandom_a 5 0] by (simp add: g)
  obtain c2 where 2: "store_user_auth urandom_a 77 2 ''bob'' 7 (Some sample_db) = Inr (token_a, c2)"
    using store_user_auth_Some [OF _ e2 i2 n2, of urandom_a 77 2] by (simp add: g)
  from issue_token_independent [OF 1 2] 1 2 show ?thesis by blast
qed

subsection \<open>Revocation\<close>




text \<open>
  Claim C9. \<^verbatim>\<open>remove_token(t)\<close> deletes every row whose token is \<open>t\<close>, not one of them:
  on any table, with the token stored twice or in expired rows, no row with token \<open>t\<close>
  is left. The statement reads no clock, so an expired session is revoked as a valid
  one is. A \<open>t\<close> that holds U+0000 is refused and the call raises; no row of a table
  holds such a token, so there too none is left.
\<close>

theorem remove_token_removes_all:
  "(encodable t \<longrightarrow>
      (\<exists>db'. remove_token t (Some db) = Inr ((), Some db')
         \<and> (\<forall>r \<in> set (sessions db'). token r \<noteq> t \<and> \<not> bpchar_eq (token r) t)
         \<and> (\<forall>r \<in> set (sessions db). bpchar_eq (token r) t \<longrightarrow> r \<notin> set (sessions db'))))
   \<and> (\<not> encodable t \<longrightarrow>
        remove_token t (Some db) = Inl EncodingError
        \<and> (sessions_typed db \<longrightarrow> (\<forall>r \<in> set (sessions db). token r \<noteq> t)))"
proof -
  let ?db' = "db\<lparr>sessions := filter (\<lambda>r. \<not> bpchar_eq (token r) t) (sessions db)\<rparr>"
  have run: "remove_token t (Some db) = Inr ((), Some ?db')" if "encodable t"
    by (rule remove_token_Some [OF that])
  have none: "\<not> bpchar_eq (token r) t" if "r \<in> set (sessions ?db')" for r
    using that by simp
  then have differ: "token r \<noteq> t" if "r \<in> set (sessions ?db')" for r
    using that bpchar_eq_refl [of t] by auto
  from none have gone: "r \<notin> set (sessions ?db')"
    if "r \<in> set (sessions db)" "bpchar_eq (token r) t" for r
    using that by blast
  have refused: "remove_token t (Some db) = Inl EncodingError" if "\<not> encodable t"
    by (rule not_encodable(4) [OF that])
  have absent: "token r \<noteq> t"
    if "\<not> encodable t" "sessions_typed db" "r \<in> set (sessions db)" for r
    using that by (auto simp: sessions_typed_def)
  from run none differ gone refused absent show ?thesis
    by blast
qed

text \<open>
  Both of \<open>bob\<close>'s rows go, the expired and the valid one; a token with U+0000 is
  refused, and is not \<open>alice\<close>'s.
\<close>

theorem remove_token_removes_all_witness:
  "(\<exists>db'. remove_token token_b (Some sample_db) = Inr ((), Some db')
      \<and> row_bob_old \<notin> set (sessions db') \<and> row_bob \<notin> set (sessions db'))
   \<and> remove_token token_nul (Some sample_db) = Inl EncodingError
   \<and> row_alice \<in> set (sessions sample_db) \<and> token row_alice \<noteq> token_nul"
proof -
  have enc: "encodable token_b" "\<not> encodable token_nul" and typed: "sessions_typed sample_db"
    by code_simp+
  have t: "token row_bob_old = token_b" "token row_bob = token_b"
    and a: "row_alice \<in> set (sessions sample_db)"
    by code_simp+
  from remove_token_removes_all [of token_b sample_db] enc(1) t
  have "\<exists>db'. remove_token token_b (Some sample_db) = Inr ((), Some db')
      \<and> row_bob_old \<notin> set (sessions db') \<and> row_bob \<notin> set (sessions db')"
    by blast
  moreover from remove_token_removes_all [of token_nul sample_db] enc(2) typed a
  have "remove_token token_nul (Some sample_db) = Inl EncodingError"
    and "token row_alice \<noteq> token_nul"
    by blast+
  ultimately show ?thesis using a by blast
qed

subsection \<open>Lookups\<close>




text \<open>
  Claim C7. For a token with a matching row, \<^verbatim>\<open>get_login_by_token\<close> is to return the
  stored login with its \<^verbatim>\<open>CHAR(64)\<close> padding trimmed, and \<^verbatim>\<open>get_role_id_by_token\<close> the
  stored role id as it is. The code does the second and not the first: for the login
  \<open>'' bob''\<close>, stored with its padding, \<^verbatim>\<open>res[0][0].strip()\<close> gives \<open>''bob''\<close>, on a table
  that holds the row and after \<^verbatim>\<open>store_user_auth\<close> has stored it. (\<open>lookups_by_token\<close>
  says what the two functions return in general.)
\<close>

theorem get_login_by_token_strips_login:
  "filter (\<lambda>r. bpchar_eq (token r) token_c) (sessions spaced_db) = [row_spaced]
   \<and> rstrip_spaces (login row_spaced) = '' bob''
   \<and> get_login_by_token token_c (Some spaced_db) = Inr (''bob'', Some spaced_db)
   \<and> get_role_id_by_token token_c (Some spaced_db) = Inr (7, Some spaced_db)
   \<and> issue_then_login urandom_a 600000 0 '' bob'' 7 (Some created_db) = Inr ''bob''"
  by code_simp

subsection \<open>Issuing a session\<close>




subsection \<open>A token between its issue and a later check\<close>

text \<open>
  While the calls made since the issue neither revoke the token nor issue it again, and
  none is made after the time \<open>T'\<close>, the rows under the token are the issued row alone,
  and it is there as long as it has not expired at \<open>T'\<close>.
\<close>

lemma after_call_InrD: "after_call res = Inr c \<Longrightarrow> \<exists>v. res = Inr (v, c)"
  by (auto simp: after_call_def split: sum.splits)

lemma run_call_keeps_row:
  assumes run: "run_call c (Some db) = Inr c'"
    and quiet: "\<not> revokes tok c" "\<not> reissues tok c" "not_after T' c"
    and len: "length tok = 64" "bpchar_eq (token row0) tok"
    and only: "\<forall>r \<in> set (sessions db). bpchar_eq (token r) tok \<longrightarrow> r = row0"
    and there: "T' < expires row0 \<longrightarrow> row0 \<in> set (sessions db)"
  shows "\<exists>db'. c' = Some db'
           \<and> (\<forall>r \<in> set (sessions db'). bpchar_eq (token r) tok \<longrightarrow> r = row0)
           \<and> (T' < expires row0 \<longrightarrow> row0 \<in> set (sessions db'))"
proof (cases c)
  case (Store_user_auth urandom now slot l r)
  with run obtain t where "store_user_auth urandom now slot l r (Some db) = Inr (t, c')"
    by (auto dest: after_call_InrD)
  then obtain row db' where c': "c' = Some db'"
    and s: "set (sessions db') = insert row (set (sessions db))"
    and row: "token row = generate_token urandom"
    by (blast dest: store_user_auth_InrD_set)
  from quiet(2) Store_user_auth have "generate_token urandom \<noteq> tok" by simp
  then have "\<not> bpchar_eq (token row) tok"
    by (simp add: row bpchar_eq_same_length length_generate_token len(1))
  with only there show ?thesis by (auto simp: c' s)
next
  case (Is_valid_token t now_select now_delete)
  with run have c': "c' = Some (db\<lparr>sessions := filter (\<lambda>r. now_delete < expires r) (sessions db)\<rparr>)"
    by (auto dest!: after_call_InrD dest: is_valid_token_InrD)
  from quiet(3) Is_valid_token have "now_delete \<le> T'" by simp
  with only there show ?thesis by (fastforce simp: c')
next
  case (Get_login_by_token t)
  with run have "c' = Some db"
    by (auto dest: after_call_InrD lookups_keep_conn)
  with only there show ?thesis by simp
next
  case (Get_role_id_by_token t)
  with run have "c' = Some db"
    by (auto dest: after_call_InrD lookups_keep_conn)
  with only there show ?thesis by simp
next
  case (Remove_token t)
  with run have c': "c' = Some (db\<lparr>sessions := filter (\<lambda>r. \<not> bpchar_eq (token r) t) (sessions db)\<rparr>)"
    by (auto dest!: after_call_InrD dest: remove_token_InrD)
  from quiet(1) Remove_token have "\<not> bpchar_eq tok t" by simp
  then have "\<not> bpchar_eq (token r) t" if "bpchar_eq (token r) tok" for r
    using that by (auto simp: bpchar_eq_def)
  with only there len(2) show ?thesis by (auto simp: c')
qed

lemma run_calls_keep_row:
  assumes "run_calls cs (Some db) = Inr c'"
    and "\<forall>c \<in> set cs. \<not> revokes tok c \<and> \<not> reissues tok c \<and> not_after T' c"
    and "length tok = 64" "bpchar_eq (token row0) tok"
    and "\<forall>r \<in> set (sessions db). bpchar_eq (token r) tok \<longrightarrow> r = row0"
    and "T' < expires row0 \<longrightarrow> row0 \<in> set (sessions db)"
  shows "\<exists>db'. c' = Some db'
           \<and> (\<forall>r \<in> set (sessions db'). bpchar_eq (token r) tok \<longrightarrow> r = row0)
           \<and> (T' < expires row0 \<longrightarrow> row0 \<in> set (sessions db'))"
  using assms
proof (induction cs arbitrary: db)
  case Nil
  then show ?case by auto
next
  case (Cons c cs)
  from Cons.prems(1) obtain c1 where c1: "run_call c (Some db) = Inr c1"
    and rest: "run_calls cs c1 = Inr c'"
    by (auto split: sum.splits)
  from Cons.prems(2) have q: "\<not> revokes tok c" "\<not> reissues tok c" "not_after T' c"
    by simp_all
  from run_call_keeps_row [OF c1 q Cons.prems(3-6)]
  obtain db1 where "c1 = Some db1"
    and "\<forall>r \<in> set (sessions db1). bpchar_eq (token r) tok \<longrightarrow> r = row0"
    and "T' < expires row0 \<longrightarrow> row0 \<in> set (sessions db1)"
    by blast
  with Cons.IH [of db1] rest Cons.prems(2-4) show ?case by simp
qed


lemma issue_then_calls:
  assumes issue: "store_user_auth urandom T slot l r (Some db) = Inr (tok, c1)"
    and fresh: "\<forall>row \<in> set (sessions db). \<not> bpchar_eq (token row) tok"
    and calls: "run_calls cs c1 = Inr c2"
    and quiet: "\<forall>c \<in> set cs. \<not> revokes tok c \<and> \<not> reissues tok c \<and> not_after T' c"
  shows "\<exists>row0 db2. c2 = Some db2 \<and> token row0 = tok \<and> bpchar 64 l = Some (login row0)
           \<and> role_id row0 = r \<and> expires row0 = timestamp0 (T + TTL)
           \<and> (\<forall>r \<in> set (sessions db2). bpchar_eq (token r) tok \<longrightarrow> r = row0)
           \<and> (T' < expires row0 \<longrightarrow> row0 \<in> set (sessions db2))"
proof -
  from issue obtain row0 db1 where c1: "c1 = Some db1"
    and s: "set (sessions db1) = insert row0 (set (sessions db))"
    and tok: "tok = generate_token urandom" and row: "token row0 = generate_token urandom"
    and rest: "bpchar 64 l = Some (login row0)" "role_id row0 = r"
      "expires row0 = timestamp0 (T + TTL)"
    by (blast dest: store_user_auth_InrD_set)
  have len: "length tok = 64"
    by (simp add: tok length_generate_token)
  have only: "\<forall>r \<in> set (sessions db1). bpchar_eq (token r) tok \<longrightarrow> r = row0"
    using fresh by (auto simp: s)
  have there: "T' < expires row0 \<longrightarrow> row0 \<in> set (sessions db1)"
    by (simp add: s)
  from calls have run: "run_calls cs (Some db1) = Inr c2"
    by (simp add: c1)
  have m: "bpchar_eq (token row0) tok"
    by (simp add: row tok bpchar_eq_refl)
  from run_calls_keep_row [OF run quiet len m only there] row tok rest
  show ?thesis by blast
qed


text \<open>
  Claim C4, amended. A token issued at time \<open>T\<close> is stored with
  \<open>expires = timestamp0 (T + TTL)\<close>: \<open>T\<close> plus 12 hours rounded to the whole second, at
  most half a second from \<open>T\<close> plus 12 hours and equal to it when \<open>T\<close> is a whole second.
  If the token matched no stored row when it was issued, then after any calls that
  neither revoke it nor issue it again, none made after \<open>T'\<close>, a check at \<open>T'\<close> returns
  true when \<open>T'\<close> is before the stored \<open>expires\<close> and false when it is at or after it.
\<close>

theorem validity_window:
  assumes issue: "store_user_auth urandom T slot l r (Some db) = Inr (tok, c1)"
    and fresh: "\<forall>row \<in> set (sessions db). \<not> bpchar_eq (token row) tok"
    and calls: "run_calls cs c1 = Inr c2"
    and quiet: "\<forall>c \<in> set cs. \<not> revokes tok c \<and> \<not> reissues tok c \<and> not_after T' c"
  shows "returned (is_valid_token tok T' T'' c2) = Inr (T' < timestamp0 (T + TTL))
       \<and> \<bar>timestamp0 (T + TTL) - (T + TTL)\<bar> \<le> 500000
       \<and> (T mod 1000000 = 0 \<longrightarrow> timestamp0 (T + TTL) = T + TTL)"
proof -
  from issue_then_calls [OF issue fresh calls quiet]
  obtain row0 db2 where c2: "c2 = Some db2" and tok: "token row0 = tok"
    and exp: "expires row0 = timestamp0 (T + TTL)"
    and only: "\<forall>r \<in> set (sessions db2). bpchar_eq (token r) tok \<longrightarrow> r = row0"
    and there: "T' < expires row0 \<longrightarrow> row0 \<in> set (sessions db2)"
    by blast
  from issue have enc: "encodable tok"
    by (auto dest: store_user_auth_InrD simp: encodable_generate_token)
  have "bpchar_eq (token row0) tok"
    by (simp add: tok bpchar_eq_refl)
  with only there
  have "(\<exists>r \<in> set (sessions db2). bpchar_eq (token r) tok \<and> T' < expires r)
          = (T' < expires row0)"
    by auto
  then have "returned (is_valid_token tok T' T'' c2) = Inr (T' < timestamp0 (T + TTL))"
    by (simp add: c2 is_valid_token_Some [OF enc] returned_def exp)
  then show ?thesis
    using timestamp0_near [of "T + TTL"] timestamp0_TTL [of T] by simp
qed

text \<open>
  \<open>alice\<close>'s token issued 0.6 seconds after the epoch, other calls in between: valid a
  microsecond before 43201 seconds, invalid at 43201 seconds.
\<close>

theorem validity_window_witness:
  "\<exists>c1 c2. store_user_auth urandom_a 600000 0 ''alice'' 2 (Some created_db) = Inr (token_a, c1)
     \<and> run_calls calls_between c1 = Inr c2
     \<and> returned (is_valid_token token_a 43200999999 43201000005 c2) = Inr True
     \<and> returned (is_valid_token token_a 43201000000 43201000000 c2) = Inr False"
proof -
  have issue: "store_user_auth urandom_a 600000 0 ''alice'' 2 (Some created_db)
      = Inr (token_a, Some (alice_only 43201000000))"
    by code_simp
  have fresh: "\<forall>row \<in> set (sessions created_db). \<not> bpchar_eq (token row) token_a"
    by code_simp
  have calls: "run_calls calls_between (Some (alice_only 43201000000)) = Inr (Some after_calls)"
    by code_simp
  have q1: "\<forall>c \<in> set calls_between.
      \<not> revokes token_a c \<and> \<not> reissues token_a c \<and> not_after 43200999999 c"
    by code_simp
  have q2: "\<forall>c \<in> set calls_between.
      \<not> revokes token_a c \<and> \<not> reissues token_a c \<and> not_after 43201000000 c"
    by code_simp
  have e: "timestamp0 (600000 + TTL) = 43201000000"
    by code_simp
  from validity_window [OF issue fresh calls q1, of 43201000005]
    validity_window [OF issue fresh calls q2, of 43201000000]
  have "returned (is_valid_token token_a 43200999999 43201000005 (Some after_calls)) = Inr True"
    and "returned (is_valid_token token_a 43201000000 43201000000 (Some after_calls)) = Inr False"
    by (simp_all add: e)
  with issue calls show ?thesis by blast
qed

text \<open>
  Claim C4 as stated fails on both sides. Issued at 0.6 seconds, the token is still
  valid at 0.6 seconds plus 12 hours; issued at 0.4 seconds, it is invalid at 43200.2
  seconds, before 0.4 seconds plus 12 hours.
\<close>

theorem validity_window_counterexample:
  "store_user_auth urandom_a 600000 0 ''alice'' 2 (Some created_db)
     = Inr (token_a, Some (alice_only 43201000000))
   \<and> 600000 + TTL \<le> (43200600000 :: int)
   \<and> returned (is_valid_token token_a 43200600000 43200600000 (Some (alice_only 43201000000)))
     = Inr True
   \<and> store_user_auth urandom_a 400000 0 ''alice'' 2 (Some created_db)
     = Inr (token_a, Some (alice_only 43200000000))
   \<and> (43200200000 :: int) < 400000 + TTL
   \<and> returned (is_valid_token token_a 43200200000 43200200000 (Some (alice_only 43200000000)))
     = Inr False"
  by code_simp

subsection \<open>Round trip\<close>




subsection \<open>The column types are an invariant\<close>

lemma created_db_typed: "sessions_typed created_db"
  by (simp add: sessions_typed_def created_db_def)

lemma run_call_typed:
  assumes "sessions_typed db" and "run_call c (Some db) = Inr c'"
  shows "\<exists>db'. c' = Some db' \<and> sessions_typed db'"
proof (cases c)
  case (Store_user_auth urandom now slot l r)
  with assms(2) obtain t where "store_user_auth urandom now slot l r (Some db) = Inr (t, c')"
    by (auto dest: after_call_InrD)
  then obtain row db' where "c' = Some db'"
    and "set (sessions db') = insert row (set (sessions db))"
    and "token row = generate_token urandom" and "bpchar 64 l = Some (login row)"
    and "encodable l"
    by (blast dest: store_user_auth_InrD_set)
  with assms(1) show ?thesis
    by (auto simp: sessions_typed_def length_generate_token
        encodable_generate_token dest: length_bpchar encodable_bpchar)
next
  case (Is_valid_token t now_select now_delete)
  with assms show ?thesis
    by (auto simp: sessions_typed_def dest!: after_call_InrD dest: is_valid_token_InrD)
next
  case (Get_login_by_token t)
  with assms show ?thesis
    by (auto dest!: after_call_InrD dest: lookups_keep_conn)
next
  case (Get_role_id_by_token t)
  with assms show ?thesis
    by (auto dest!: after_call_InrD dest: lookups_keep_conn)
next
  case (Remove_token t)
  with assms show ?thesis
    by (auto simp: sessions_typed_def dest!: after_call_InrD dest: remove_token_InrD)
qed

lemma run_calls_typed:
  "sessions_typed db \<Longrightarrow> run_calls cs (Some db) = Inr c' \<Longrightarrow>
     \<exists>db'. c' = Some db' \<and> sessions_typed db'"
proof (induction cs arbitrary: db)
  case Nil
  then show ?case by auto
next
  case (Cons c cs)
  from Cons.prems(2) obtain c1 where 1: "run_call c (Some db) = Inr c1"
    and 2: "run_calls cs c1 = Inr c'"
    by (auto split: sum.splits)
  from run_call_typed [OF Cons.prems(1) 1] obtain db1 where "c1 = Some db1" "sessions_typed db1"
    by blast
  with Cons.IH 2 show ?case by auto
qed

end
